theory Spec2Isabelle
  imports Main "HOL-Library.Word"
begin

section \<open>Data model of conn\_pool.go\<close>

text \<open>
  The pool is a Go struct holding two buffered channels. A channel is modelled by its
  buffer (oldest element first), its capacity and its closed flag. External objects
  (the memcached client, the connection factory, the timer, the TAP feed) are not part of
  the program: every call the pool makes on them is recorded as an \<open>event\<close>, and every
  value they hand back is supplied by the caller of the model (the fields of \<open>sched\<close>).
\<close>

datatype err =
    NoPool                \<comment> \<open>\<open>errors.New("no pool")\<close>\<close>
  | TimeoutError          \<comment> \<open>\<open>var TimeoutError\<close>\<close>
  | closedPool            \<comment> \<open>\<open>var closedPool\<close>\<close>
  | RuntimeError string   \<comment> \<open>a recovered run-time panic, as \<open>Close\<close> returns it\<close>
  | OtherError string     \<comment> \<open>any error produced outside the pool (factory, feed)\<close>

record client =
  cid :: nat
  healthy :: bool         \<comment> \<open>what \<open>c.IsHealthy()\<close> answers\<close>

type_synonym authHandler = "string \<times> string"

datatype tapArguments = TapArguments string
datatype tapFeed = TapFeed nat

record 'a chan =
  buf :: "'a list"
  cap :: nat
  closed :: bool

text \<open>
  The struct's field \<open>mkConn\<close> is the factory, a function with effects of its own: what
  it returns at a call is the \<open>mkResult\<close> of the schedule below, and the call itself is
  the event \<open>EvMkConn\<close>. The queue never holds a nil pointer (\<open>Return\<close>, the only sender,
  refuses nil), so its elements are clients.
\<close>

record connectionPool =
  host :: string
  auth :: authHandler
  connections :: "client chan"
  createsem :: "bool chan"

datatype event =
    EvMkConn string authHandler              \<comment> \<open>\<open>cp.mkConn(cp.host, cp.auth)\<close>\<close>
  | EvIsHealthy client                       \<comment> \<open>\<open>c.IsHealthy()\<close>\<close>
  | EvClose client                           \<comment> \<open>\<open>c.Close()\<close>\<close>
  | EvStartTapFeed "client option" tapArguments  \<comment> \<open>\<open>mc.StartTapFeed(*args)\<close>\<close>

text \<open>
  A call either returns, parks its goroutine with nothing left that could wake it
  (\<open>Blocks\<close>), or dies of a panic nobody recovers (\<open>Panics\<close>).
\<close>

datatype 'a outcome = Returns 'a | Blocks | Panics

subsection \<open>Channel primitives\<close>

text \<open>
  \<open>make(chan T, n)\<close> panics on a negative size; \<open>int\<close> is taken to be 64 bits wide.
  The run-time's upper limit on the allocation is not modelled.
\<close>

definition makechan :: "64 word \<Rightarrow> 'a chan outcome" where
  "makechan n =
     (if sint n < 0 then Panics
      else Returns \<lparr>buf = [], cap = nat (sint n), closed = False\<rparr>)"

text \<open>A receive can proceed when the buffer holds a value or the channel is closed.\<close>

definition recv_ready :: "'a chan \<Rightarrow> bool" where
  "recv_ready ch = (case buf ch of [] \<Rightarrow> closed ch | _ # _ \<Rightarrow> True)"

text \<open>
  \<open>v, ok := <-ch\<close>: \<open>None\<close> when the receive cannot proceed; otherwise the value
  (\<open>None\<close> for the zero value of a closed and drained channel, where \<open>ok\<close> is false)
  and the channel afterwards.
\<close>

definition chan_recv :: "'a chan \<Rightarrow> ('a option \<times> 'a chan) option" where
  "chan_recv ch =
     (case buf ch of
        v # rest \<Rightarrow> Some (Some v, ch\<lparr>buf := rest\<rparr>)
      | [] \<Rightarrow> if closed ch then Some (None, ch) else None)"

text \<open>A send can proceed when the channel is closed (it panics) or the buffer has room.\<close>

definition send_ready :: "'a chan \<Rightarrow> bool" where
  "send_ready ch = (if closed ch then True else length (buf ch) < cap ch)"

definition chan_push :: "'a \<Rightarrow> 'a chan \<Rightarrow> 'a chan" where
  "chan_push v ch = ch\<lparr>buf := buf ch @ [v]\<rparr>"

subsection \<open>Timers and \<open>select\<close>\<close>

definition Millisecond :: int where "Millisecond = 1000000"
definition Hour :: int where "Hour = 3600 * 1000 * Millisecond"
definition ConnPoolTimeout :: int where "ConnPoolTimeout = Hour * 24 * 30"

datatype selCase = RecvConn | SendSem | TimerFired

text \<open>
  What the program cannot decide is given by a \<open>sched\<close>: how many nanoseconds had passed
  on each timer when its \<open>select\<close> polled, the order in which each \<open>select\<close> polled its
  cases (the run-time draws a random permutation and takes the first case that can
  proceed), and what the factory returns if it is called.
\<close>

record sched =
  fastElapsed :: int
  fastOrder :: "selCase list"
  slowElapsed :: int
  slowOrder :: "selCase list"
  mkResult :: "client option \<times> err option"

text \<open>
  \<open>select\<close> over cases that include a timer: the first case in poll order that can
  proceed wins. When none can, the goroutine parks; in a run with no other goroutine only
  the timer can wake it.
\<close>

definition selectgo :: "(selCase \<Rightarrow> bool) \<Rightarrow> selCase list \<Rightarrow> selCase" where
  "selectgo ready pollorder =
     (case find ready pollorder of Some c \<Rightarrow> c | None \<Rightarrow> TimerFired)"

definition fastReady :: "sched \<Rightarrow> connectionPool \<Rightarrow> selCase \<Rightarrow> bool" where
  "fastReady sch cp c =
     (case c of
        RecvConn \<Rightarrow> recv_ready (connections cp)
      | SendSem \<Rightarrow> False
      | TimerFired \<Rightarrow> Millisecond \<le> fastElapsed sch)"

definition slowReady :: "int \<Rightarrow> sched \<Rightarrow> connectionPool \<Rightarrow> selCase \<Rightarrow> bool" where
  "slowReady d sch cp c =
     (case c of
        RecvConn \<Rightarrow> recv_ready (connections cp)
      | SendSem \<Rightarrow> send_ready (createsem cp)
      | TimerFired \<Rightarrow> d \<le> slowElapsed sch)"

section \<open>The operations\<close>

subsection \<open>newConnectionPool\<close>

definition newConnectionPool ::
  "string \<Rightarrow> authHandler \<Rightarrow> 64 word \<Rightarrow> 64 word \<Rightarrow> connectionPool outcome" where
  "newConnectionPool h ah poolSize poolOverflow =
     (case makechan poolSize of
        Returns conns \<Rightarrow>
          (case makechan (poolSize + poolOverflow) of
             Returns sem \<Rightarrow>
               Returns \<lparr>host = h, auth = ah, connections = conns, createsem = sem\<rparr>
           | Blocks \<Rightarrow> Blocks
           | Panics \<Rightarrow> Panics)
      | Blocks \<Rightarrow> Blocks
      | Panics \<Rightarrow> Panics)"

subsection \<open>Close\<close>

text \<open>The \<open>range\<close> loop of \<open>Close\<close>: one \<open>c.Close()\<close> per connection left in the queue.\<close>

primrec closeAll :: "client list \<Rightarrow> event list" where
  "closeAll [] = []"
| "closeAll (c # cs) = EvClose c # closeAll cs"

text \<open>
  \<open>Close\<close> recovers every panic of its body and returns it as the error: the nil
  dereference of a nil pool, and \<open>close\<close> of a channel that is already closed.
\<close>

definition Close ::
  "connectionPool option \<Rightarrow> err option \<times> connectionPool option \<times> event list" where
  "Close cpo =
     (case cpo of
        None \<Rightarrow> (Some (RuntimeError ''invalid memory address or nil pointer dereference''),
                 None, [])
      | Some cp \<Rightarrow>
          if closed (connections cp)
          then (Some (RuntimeError ''close of closed channel''), Some cp, [])
          else (None,
                Some (cp\<lparr>connections := (connections cp)\<lparr>buf := [], closed := True\<rparr>\<rparr>),
                closeAll (buf (connections cp))))"

subsection \<open>GetWithTimeout and Get\<close>

type_synonym getResult =
  "(client option \<times> err option) \<times> connectionPool option \<times> event list"

text \<open>Both receive cases: \<open>rv, isopen := <-cp.connections\<close> and what follows.\<close>

definition recvCase :: "connectionPool \<Rightarrow> getResult outcome" where
  "recvCase cp =
     (case chan_recv (connections cp) of
        None \<Rightarrow> Blocks
      | Some (None, ch) \<Rightarrow> Returns ((None, Some closedPool), Some cp, [])
      | Some (Some rv, ch) \<Rightarrow> Returns ((Some rv, None), Some (cp\<lparr>connections := ch\<rparr>), []))"

text \<open>
  The case \<open>cp.createsem <- true\<close>: the factory is called with the token held, and the
  token is taken back (a receive from the same channel) when the factory reports an error.
\<close>

definition semCase :: "sched \<Rightarrow> connectionPool \<Rightarrow> getResult outcome" where
  "semCase sch cp =
     (if closed (createsem cp) then Panics
      else
        let cp1 = cp\<lparr>createsem := chan_push True (createsem cp)\<rparr>;
            ev = [EvMkConn (host cp1) (auth cp1)]
        in case mkResult sch of
             (rv, None) \<Rightarrow> Returns ((rv, None), Some cp1, ev)
           | (rv, Some e) \<Rightarrow>
               (case chan_recv (createsem cp1) of
                  None \<Rightarrow> Blocks
                | Some (_, sem) \<Rightarrow> Returns ((rv, Some e), Some (cp1\<lparr>createsem := sem\<rparr>), ev)))"

definition GetWithTimeout ::
  "int \<Rightarrow> sched \<Rightarrow> connectionPool option \<Rightarrow> getResult outcome" where
  "GetWithTimeout d sch cpo =
     (case cpo of
        None \<Rightarrow> Returns ((None, Some NoPool), None, [])
      | Some cp \<Rightarrow>
          (case selectgo (fastReady sch cp) (fastOrder sch) of
             RecvConn \<Rightarrow> recvCase cp
           | _ \<Rightarrow>
               (case selectgo (slowReady d sch cp) (slowOrder sch) of
                  RecvConn \<Rightarrow> recvCase cp
                | SendSem \<Rightarrow> semCase sch cp
                | TimerFired \<Rightarrow> Returns ((None, Some TimeoutError), Some cp, []))))"

text \<open>
  \<open>ConnPoolTimeout\<close> is a package variable: \<open>Get\<close> reads the value it has at the call,
  here \<open>tmo\<close>. The constant \<open>ConnPoolTimeout\<close> above is its initial value.
\<close>

definition Get :: "int \<Rightarrow> sched \<Rightarrow> connectionPool option \<Rightarrow> getResult outcome" where
  "Get tmo sch cpo = GetWithTimeout tmo sch cpo"

subsection \<open>Return\<close>

text \<open>
  \<open><-cp.createsem; c.Close()\<close>, the retirement shared by both branches, after the
  \<open>c.IsHealthy()\<close> that chose the branch. The receive parks on an empty, open
  \<open>createsem\<close>.
\<close>

definition retire ::
  "connectionPool \<Rightarrow> client \<Rightarrow> (connectionPool option \<times> event list) outcome" where
  "retire cp c =
     (case chan_recv (createsem cp) of
        None \<Rightarrow> Blocks
      | Some (_, sem) \<Rightarrow> Returns (Some (cp\<lparr>createsem := sem\<rparr>), [EvIsHealthy c, EvClose c]))"

text \<open>
  In the healthy branch the \<open>select\<close> has one send case and a \<open>default\<close>: on a closed
  queue the send panics, the deferred function recovers and closes the connection; with
  room in the buffer the connection is queued; otherwise \<open>default\<close> retires it.
\<close>

definition Return ::
  "connectionPool option \<Rightarrow> client option \<Rightarrow> (connectionPool option \<times> event list) outcome"
  where
  "Return cpo co =
     (case cpo of
        None \<Rightarrow> Returns (cpo, [])
      | Some cp \<Rightarrow>
          (case co of
             None \<Rightarrow> Returns (cpo, [])
           | Some c \<Rightarrow>
               if healthy c then
                 (if closed (connections cp)
                  then Returns (Some cp, [EvIsHealthy c, EvClose c])
                  else if length (buf (connections cp)) < cap (connections cp)
                  then Returns (Some (cp\<lparr>connections := chan_push c (connections cp)\<rparr>),
                                [EvIsHealthy c])
                  else retire cp c)
               else retire cp c))"

subsection \<open>StartTapFeed\<close>

type_synonym tapResult =
  "(tapFeed option \<times> err option) \<times> connectionPool option \<times> event list"

text \<open>
  What \<open>StartTapFeed\<close> does once it holds a connection:
  \<open><-cp.createsem; return mc.StartTapFeed(*args)\<close>. \<open>feedResult\<close> is what the
  connection's own \<open>StartTapFeed\<close> answers, \<open>ev\<close> the events so far. \<open>*args\<close> is
  evaluated after the token has been taken back and panics on a nil pointer.
\<close>

definition detach ::
  "(tapFeed option \<times> err option) \<Rightarrow> tapArguments option \<Rightarrow> client option \<Rightarrow>
   connectionPool \<Rightarrow> event list \<Rightarrow> tapResult outcome" where
  "detach feedResult args mc cp1 ev =
     (case chan_recv (createsem cp1) of
        None \<Rightarrow> Blocks
      | Some (_, sem) \<Rightarrow>
          (case args of
             None \<Rightarrow> Panics
           | Some a \<Rightarrow>
               Returns (feedResult, Some (cp1\<lparr>createsem := sem\<rparr>),
                        ev @ [EvStartTapFeed mc a])))"

definition StartTapFeed ::
  "int \<Rightarrow> sched \<Rightarrow> (tapFeed option \<times> err option) \<Rightarrow> tapArguments option \<Rightarrow>
   connectionPool option \<Rightarrow> tapResult outcome" where
  "StartTapFeed tmo sch feedResult args cpo =
     (case cpo of
        None \<Rightarrow> Returns ((None, Some NoPool), None, [])
      | Some cp \<Rightarrow>
          (case Get tmo sch cpo of
             Blocks \<Rightarrow> Blocks
           | Panics \<Rightarrow> Panics
           | Returns ((mc, Some e), cpo1, ev) \<Rightarrow> Returns ((None, Some e), cpo1, ev)
           | Returns ((mc, None), None, ev) \<Rightarrow> Panics
           | Returns ((mc, None), Some cp1, ev) \<Rightarrow> detach feedResult args mc cp1 ev))"

section \<open>Callers: sequences of operations\<close>

text \<open>
  A caller holds the connections it was handed with a nil error (\<open>out\<close>) and gives back
  only those: \<open>OpReturn i h\<close> returns the \<open>i\<close>-th of them, whose health has become
  \<open>h\<close> meanwhile, and passes nil when it holds no such connection.

  A call of \<open>StartTapFeed\<close> is run in its two halves, so that other operations may come
  in between: \<open>OpTapAcquire\<close> is its \<open>cp.Get()\<close>, after which the connection is
  \<open>detaching\<close> (taken for a feed, its token not yet given back), and \<open>OpTapDetach i\<close>
  lets the \<open>i\<close>-th such call go on with \<open>detach\<close>. A detached connection belongs to the
  feed and never comes back.
\<close>

record sys =
  pool :: connectionPool
  out :: "client list"
  detaching :: "client option list"

datatype op =
    OpGet int sched
  | OpReturn nat bool
  | OpTapAcquire int sched
  | OpTapDetach nat "tapFeed option \<times> err option" "tapArguments option"
  | OpClose

definition held :: "client list \<Rightarrow> nat \<Rightarrow> bool \<Rightarrow> client option" where
  "held cs i h = (if i < length cs then Some ((cs ! i)\<lparr>healthy := h\<rparr>) else None)"

definition dropAt :: "nat \<Rightarrow> 'a list \<Rightarrow> 'a list" where
  "dropAt i cs = take i cs @ drop (Suc i) cs"

fun sys_step :: "op \<Rightarrow> sys \<Rightarrow> sys outcome" where
  "sys_step (OpGet d sch) s =
     (case GetWithTimeout d sch (Some (pool s)) of
        Returns ((Some c, None), Some cp, ev) \<Rightarrow> Returns (s\<lparr>pool := cp, out := out s @ [c]\<rparr>)
      | Returns (r, Some cp, ev) \<Rightarrow> Returns (s\<lparr>pool := cp\<rparr>)
      | Returns (r, None, ev) \<Rightarrow> Panics
      | Blocks \<Rightarrow> Blocks
      | Panics \<Rightarrow> Panics)"
| "sys_step (OpReturn i h) s =
     (case Return (Some (pool s)) (held (out s) i h) of
        Returns (Some cp, ev) \<Rightarrow> Returns (s\<lparr>pool := cp, out := dropAt i (out s)\<rparr>)
      | Returns (None, ev) \<Rightarrow> Panics
      | Blocks \<Rightarrow> Blocks
      | Panics \<Rightarrow> Panics)"
| "sys_step (OpTapAcquire tmo sch) s =
     (case Get tmo sch (Some (pool s)) of
        Returns ((mc, None), Some cp, ev) \<Rightarrow>
          Returns (s\<lparr>pool := cp, detaching := detaching s @ [mc]\<rparr>)
      | Returns ((mc, Some e), Some cp, ev) \<Rightarrow> Returns (s\<lparr>pool := cp\<rparr>)
      | Returns (r, None, ev) \<Rightarrow> Panics
      | Blocks \<Rightarrow> Blocks
      | Panics \<Rightarrow> Panics)"
| "sys_step (OpTapDetach i fr args) s =
     (if i < length (detaching s) then
        (case detach fr args (detaching s ! i) (pool s) [] of
           Returns (r, Some cp, ev) \<Rightarrow>
             Returns (s\<lparr>pool := cp, detaching := dropAt i (detaching s)\<rparr>)
         | Returns (r, None, ev) \<Rightarrow> Panics
         | Blocks \<Rightarrow> Blocks
         | Panics \<Rightarrow> Panics)
      else Returns s)"
| "sys_step OpClose s =
     (case Close (Some (pool s)) of
        (e, Some cp, ev) \<Rightarrow> Returns (s\<lparr>pool := cp\<rparr>)
      | (e, None, ev) \<Rightarrow> Panics)"

fun run :: "op list \<Rightarrow> sys \<Rightarrow> sys outcome" where
  "run [] s = Returns s"
| "run (x # xs) s =
     (case sys_step x s of
        Returns s' \<Rightarrow> run xs s'
      | Blocks \<Rightarrow> Blocks
      | Panics \<Rightarrow> Panics)"

definition start :: "connectionPool \<Rightarrow> sys" where
  "start cp = \<lparr>pool = cp, out = [], detaching = []\<rparr>"

text \<open>
  Connections alive under the pool's accounting: queued, held by a caller, or taken for
  a feed whose token has not been given back yet.
\<close>

definition live :: "sys \<Rightarrow> nat" where
  "live s = length (buf (connections (pool s))) + length (out s)
            + length (filter (\<lambda>mc. mc \<noteq> None) (detaching s))"

text \<open>
  Every queued or held connection and every \<open>StartTapFeed\<close> in flight is covered by a
  token of its own, and the tokens fit the channel.
\<close>

definition accounted :: "sys \<Rightarrow> bool" where
  "accounted s =
     (length (buf (connections (pool s))) + length (out s) + length (detaching s)
        \<le> length (buf (createsem (pool s)))
      \<and> length (buf (createsem (pool s))) \<le> cap (createsem (pool s))
      \<and> closed (createsem (pool s)) = False)"

section \<open>Example inputs\<close>

text \<open>
  Two schedules. On \<open>prompt\<close> neither timer has fired when its \<open>select\<close> polls and the
  queue is polled first. On \<open>late\<close> the grace timer has already fired when the first
  \<open>select\<close> polls and is polled first, and the second \<open>select\<close> polls the token channel
  first.
\<close>

definition prompt :: "client option \<times> err option \<Rightarrow> sched" where
  "prompt res = \<lparr>fastElapsed = 0, fastOrder = [RecvConn, TimerFired],
                 slowElapsed = 0, slowOrder = [RecvConn, SendSem, TimerFired],
                 mkResult = res\<rparr>"

definition late :: "client option \<times> err option \<Rightarrow> sched" where
  "late res = \<lparr>fastElapsed = Millisecond, fastOrder = [TimerFired, RecvConn],
               slowElapsed = 0, slowOrder = [SendSem, RecvConn, TimerFired],
               mkResult = res\<rparr>"

definition conn :: "nat \<Rightarrow> client" where
  "conn n = \<lparr>cid = n, healthy = True\<rparr>"

definition sick :: "nat \<Rightarrow> client" where
  "sick n = \<lparr>cid = n, healthy = False\<rparr>"

text \<open>A pool with a queue of \<open>n\<close> places and \<open>m\<close> token slots, holding \<open>q\<close> and \<open>k\<close> tokens.\<close>

definition poolOf :: "nat \<Rightarrow> nat \<Rightarrow> client list \<Rightarrow> nat \<Rightarrow> bool \<Rightarrow> connectionPool" where
  "poolOf n m q k cl =
     \<lparr>host = ''h'', auth = (''u'', ''p''),
      connections = \<lparr>buf = q, cap = n, closed = cl\<rparr>,
      createsem = \<lparr>buf = replicate k True, cap = m, closed = False\<rparr>\<rparr>"

lemmas model_defs =
  makechan_def recv_ready_def chan_recv_def send_ready_def chan_push_def
  Millisecond_def Hour_def ConnPoolTimeout_def selectgo_def fastReady_def slowReady_def
  newConnectionPool_def Close_def recvCase_def semCase_def GetWithTimeout_def Get_def
  retire_def Return_def detach_def StartTapFeed_def held_def dropAt_def start_def
  live_def accounted_def prompt_def late_def conn_def sick_def poolOf_def

section \<open>Facts about the operations\<close>

subsection \<open>Pool sizes\<close>




subsection \<open>The branches of GetWithTimeout\<close>

lemma selectgo_ready: "selectgo ready order = c \<Longrightarrow> c \<noteq> TimerFired \<Longrightarrow> ready c"
  by (auto simp: selectgo_def find_Some_iff split: option.splits)

lemma selectgo_SendSem:
  "selectgo (slowReady d sch cp) order = SendSem \<Longrightarrow> send_ready (createsem cp)"
  using selectgo_ready [of "slowReady d sch cp" order SendSem] by (simp add: slowReady_def)

lemma selectgo_fast_RecvConn:
  "selectgo (fastReady sch cp) order = RecvConn \<Longrightarrow> recv_ready (connections cp)"
  using selectgo_ready [of "fastReady sch cp" order RecvConn] by (simp add: fastReady_def)

lemma selectgo_slow_RecvConn:
  "selectgo (slowReady d sch cp) order = RecvConn \<Longrightarrow> recv_ready (connections cp)"
  using selectgo_ready [of "slowReady d sch cp" order RecvConn] by (simp add: slowReady_def)

lemma GetWithTimeout_branches:
  "(recv_ready (connections cp) \<and> GetWithTimeout d sch (Some cp) = recvCase cp)
   \<or> (send_ready (createsem cp) \<and> GetWithTimeout d sch (Some cp) = semCase sch cp)
   \<or> GetWithTimeout d sch (Some cp) = Returns ((None, Some TimeoutError), Some cp, [])"
  by (auto simp: GetWithTimeout_def selectgo_fast_RecvConn selectgo_slow_RecvConn
      selectgo_SendSem split: selCase.splits)

lemma recvCase_ready:
  "recv_ready (connections cp) \<Longrightarrow>
   recvCase cp =
     (case buf (connections cp) of
        [] \<Rightarrow> Returns ((None, Some closedPool), Some cp, [])
      | c # rest \<Rightarrow>
          Returns ((Some c, None), Some (cp\<lparr>connections := (connections cp)\<lparr>buf := rest\<rparr>\<rparr>), []))"
  by (auto simp: recvCase_def recv_ready_def chan_recv_def split: list.splits)

lemma semCase_open:
  "closed (createsem cp) = False \<Longrightarrow>
   semCase sch cp =
     (case mkResult sch of
        (rv, None) \<Rightarrow>
          Returns ((rv, None), Some (cp\<lparr>createsem := chan_push True (createsem cp)\<rparr>),
                   [EvMkConn (host cp) (auth cp)])
      | (rv, Some e) \<Rightarrow>
          Returns ((rv, Some e),
                   Some (cp\<lparr>createsem :=
                              (createsem cp)\<lparr>buf := tl (buf (createsem cp) @ [True])\<rparr>\<rparr>),
                   [EvMkConn (host cp) (auth cp)]))"
  by (cases "buf (createsem cp)")
     (auto simp: semCase_def chan_push_def chan_recv_def Let_def
        split: prod.splits option.splits list.splits)

subsection \<open>The branches of Return\<close>

lemma retire_nonempty:
  "buf (createsem cp) = t # ts \<Longrightarrow>
   retire cp c = Returns (Some (cp\<lparr>createsem := (createsem cp)\<lparr>buf := ts\<rparr>\<rparr>),
                          [EvIsHealthy c, EvClose c])"
  by (simp add: retire_def chan_recv_def)

lemma retire_empty_open:
  "buf (createsem cp) = [] \<Longrightarrow> closed (createsem cp) = False \<Longrightarrow> retire cp c = Blocks"
  by (simp add: retire_def chan_recv_def)

lemma retire_empty_closed:
  "buf (createsem cp) = [] \<Longrightarrow> closed (createsem cp) \<Longrightarrow>
   retire cp c = Returns (Some (cp\<lparr>createsem := createsem cp\<rparr>), [EvIsHealthy c, EvClose c])"
  by (simp add: retire_def chan_recv_def)

subsection \<open>The accounting is kept by every operation\<close>

lemma length_dropAt: "i < length cs \<Longrightarrow> length (dropAt i cs) = length cs - 1"
  by (simp add: dropAt_def)

lemma dropAt_beyond: "\<not> i < length cs \<Longrightarrow> dropAt i cs = cs"
  by (simp add: dropAt_def)

lemma accounted_Get:
  assumes "accounted s"
  shows "\<exists>s'. sys_step (OpGet d sch) s = Returns s' \<and> accounted s'
           \<and> cap (createsem (pool s')) = cap (createsem (pool s))"
proof -
  from assms have op: "closed (createsem (pool s)) = False" by (simp add: accounted_def)
  consider (r) "recv_ready (connections (pool s))"
      "GetWithTimeout d sch (Some (pool s)) = recvCase (pool s)"
    | (m) "send_ready (createsem (pool s))"
      "GetWithTimeout d sch (Some (pool s)) = semCase sch (pool s)"
    | (t) "GetWithTimeout d sch (Some (pool s))
             = Returns ((None, Some TimeoutError), Some (pool s), [])"
    using GetWithTimeout_branches [of "pool s" d sch] by blast
  then show ?thesis
  proof cases
    case r
    with assms show ?thesis
      by (auto simp: recvCase_ready accounted_def split: list.splits)
  next
    case m
    with assms op show ?thesis
      by (auto simp: semCase_open accounted_def send_ready_def chan_push_def
          split: prod.splits option.splits)
  next
    case t
    with assms show ?thesis by auto
  qed
qed

lemma accounted_TapAcquire:
  assumes "accounted s"
  shows "\<exists>s'. sys_step (OpTapAcquire tmo sch) s = Returns s' \<and> accounted s'
           \<and> cap (createsem (pool s')) = cap (createsem (pool s))"
proof -
  from assms have op: "closed (createsem (pool s)) = False" by (simp add: accounted_def)
  consider (r) "recv_ready (connections (pool s))"
      "Get tmo sch (Some (pool s)) = recvCase (pool s)"
    | (m) "send_ready (createsem (pool s))"
      "Get tmo sch (Some (pool s)) = semCase sch (pool s)"
    | (t) "Get tmo sch (Some (pool s)) = Returns ((None, Some TimeoutError), Some (pool s), [])"
    using GetWithTimeout_branches [of "pool s" tmo sch] by (auto simp: Get_def)
  then show ?thesis
  proof cases
    case r
    with assms show ?thesis
      by (auto simp: recvCase_ready accounted_def split: list.splits)
  next
    case m
    with assms op show ?thesis
      by (auto simp: semCase_open accounted_def send_ready_def chan_push_def
          split: prod.splits option.splits)
  next
    case t
    with assms show ?thesis by auto
  qed
qed

lemma accounted_Return:
  assumes "accounted s"
  shows "\<exists>s'. sys_step (OpReturn i h) s = Returns s' \<and> accounted s'
           \<and> cap (createsem (pool s')) = cap (createsem (pool s))"
proof (cases "i < length (out s)")
  case False
  with assms show ?thesis by (simp add: held_def Return_def dropAt_beyond)
next
  case True
  with assms obtain t ts where tok: "buf (createsem (pool s)) = t # ts"
    by (cases "buf (createsem (pool s))") (auto simp: accounted_def)
  from True have len: "length (dropAt i (out s)) = length (out s) - 1"
    by (rule length_dropAt)
  from True assms tok len show ?thesis
    by (auto simp: held_def Return_def retire_nonempty accounted_def chan_push_def)
qed

lemma accounted_TapDetach:
  assumes "accounted s"
  shows "(sys_step (OpTapDetach i fr args) s = Returns s' \<longrightarrow>
            accounted s' \<and> cap (createsem (pool s')) = cap (createsem (pool s)))
         \<and> sys_step (OpTapDetach i fr args) s \<noteq> Blocks
         \<and> (args \<noteq> None \<longrightarrow> sys_step (OpTapDetach i fr args) s \<noteq> Panics)"
proof (cases "i < length (detaching s)")
  case False
  with assms show ?thesis by auto
next
  case True
  with assms obtain t ts where tok: "buf (createsem (pool s)) = t # ts"
    by (cases "buf (createsem (pool s))") (auto simp: accounted_def)
  from True have len: "length (dropAt i (detaching s)) = length (detaching s) - 1"
    by (rule length_dropAt)
  from True assms tok len show ?thesis
    by (auto simp: detach_def chan_recv_def accounted_def split: option.splits)
qed

lemma accounted_Close:
  assumes "accounted s"
  shows "\<exists>s'. sys_step OpClose s = Returns s' \<and> accounted s'
           \<and> cap (createsem (pool s')) = cap (createsem (pool s))"
  using assms by (auto simp: Close_def accounted_def)

lemma accounted_step:
  assumes "accounted s" and "sys_step x s = Returns s'"
  shows "accounted s' \<and> cap (createsem (pool s')) = cap (createsem (pool s))"
proof (cases x)
  case (OpGet d sch)
  with assms accounted_Get [OF assms(1), of d sch] show ?thesis by auto
next
  case (OpReturn i h)
  with assms accounted_Return [OF assms(1), of i h] show ?thesis by auto
next
  case (OpTapAcquire tmo sch)
  with assms accounted_TapAcquire [OF assms(1), of tmo sch] show ?thesis by auto
next
  case (OpTapDetach i fr args)
  with assms accounted_TapDetach [OF assms(1), of i fr args s'] show ?thesis by simp
next
  case OpClose
  with assms accounted_Close [OF assms(1)] show ?thesis by auto
qed

lemma accounted_never_Blocks:
  assumes "accounted s"
  shows "sys_step x s \<noteq> Blocks"
proof (cases x)
  case (OpGet d sch)
  with accounted_Get [OF assms, of d sch] show ?thesis by auto
next
  case (OpReturn i h)
  with accounted_Return [OF assms, of i h] show ?thesis by auto
next
  case (OpTapAcquire tmo sch)
  with accounted_TapAcquire [OF assms, of tmo sch] show ?thesis by auto
next
  case (OpTapDetach i fr args)
  with accounted_TapDetach [OF assms, of i fr args] show ?thesis by auto
next
  case OpClose
  with accounted_Close [OF assms] show ?thesis by auto
qed


lemma run_never_Blocks: "accounted s \<Longrightarrow> run xs s \<noteq> Blocks"
proof (induction xs arbitrary: s)
  case Nil
  then show ?case by simp
next
  case (Cons x xs)
  show ?case
  proof (cases "sys_step x s")
    case (Returns s1)
    with accounted_step [OF Cons.prems this] Cons.IH [of s1] show ?thesis by simp
  next
    case Blocks
    with accounted_never_Blocks [OF Cons.prems, of x] show ?thesis by simp
  next
    case Panics
    then show ?thesis by simp
  qed
qed



subsection \<open>More on the branches\<close>

lemma length_tl_snoc: "length (tl (xs @ [x])) = length xs"
  by (cases xs) simp_all

lemma GetWithTimeout_SendSem:
  assumes "selectgo (fastReady sch cp) (fastOrder sch) \<noteq> RecvConn"
    and "selectgo (slowReady d sch cp) (slowOrder sch) = SendSem"
  shows "GetWithTimeout d sch (Some cp) = semCase sch cp"
  using assms by (simp add: GetWithTimeout_def split: selCase.splits)

lemma GetWithTimeout_RecvConn:
  assumes "selectgo (fastReady sch cp) (fastOrder sch) = RecvConn
           \<or> selectgo (slowReady d sch cp) (slowOrder sch) = RecvConn"
  shows "recv_ready (connections cp) \<and> GetWithTimeout d sch (Some cp) = recvCase cp"
  using assms selectgo_fast_RecvConn [of sch cp "fastOrder sch"]
    selectgo_slow_RecvConn [of d sch cp "slowOrder sch"]
  by (auto simp add: GetWithTimeout_def split: selCase.splits)

lemma find_only_ready:
  assumes only: "\<And>x. ready x \<Longrightarrow> x = c" and rc: "ready c" and mem: "c \<in> set order"
  shows "find ready order = Some c"
  using mem
proof (induction order)
  case Nil
  then show ?case by simp
next
  case (Cons a as)
  show ?case
  proof (cases "ready a")
    case True
    with only [of a] show ?thesis by simp
  next
    case False
    with rc have "a \<noteq> c" by blast
    with Cons False show ?thesis by simp
  qed
qed

lemma selectgo_only_ready:
  assumes "\<And>x. ready x \<Longrightarrow> x = c" and "ready c" and "c \<in> set order"
  shows "selectgo ready order = c"
proof -
  have "find ready order = Some c" using assms by (rule find_only_ready)
  then show ?thesis by (simp add: selectgo_def)
qed

subsection \<open>Calls made on external objects\<close>

lemma GetWithTimeout_events:
  "GetWithTimeout d sch cpo = Returns (r, cpo', ev) \<Longrightarrow>
   ev = [] \<or> (\<exists>cp. cpo = Some cp \<and> ev = [EvMkConn (host cp) (auth cp)])"
  by (cases cpo)
     (auto simp: GetWithTimeout_def recvCase_def semCase_def Let_def
        split: selCase.splits option.splits prod.splits if_splits)

lemma closeAll_events: "e \<in> set (closeAll cs) \<Longrightarrow> \<exists>c. e = EvClose c"
  by (induction cs) auto

lemma closeAll_map: "closeAll cs = map EvClose cs"
  by (induction cs) simp_all

lemma StartTapFeed_events:
  "StartTapFeed tmo sch fr args cpo = Returns (r, cpo', ev) \<Longrightarrow> EvIsHealthy c \<notin> set ev"
proof (cases cpo)
  case None
  assume "StartTapFeed tmo sch fr args cpo = Returns (r, cpo', ev)"
  with None show ?thesis by (simp add: StartTapFeed_def)
next
  case (Some cp)
  assume st: "StartTapFeed tmo sch fr args cpo = Returns (r, cpo', ev)"
  show ?thesis
  proof (cases "Get tmo sch cpo")
    case (Returns g)
    obtain mc e cpo1 ev1 where g: "g = ((mc, e), cpo1, ev1)" by (cases g) auto
    from GetWithTimeout_events [of tmo sch cpo "(mc, e)" cpo1 ev1] Returns g
    have "EvIsHealthy c \<notin> set ev1" by (auto simp: Get_def)
    with st Some Returns g show ?thesis
      by (auto simp: StartTapFeed_def detach_def split: option.splits)
  qed (use st Some in \<open>simp_all add: StartTapFeed_def\<close>)
qed

subsection \<open>StartTapFeed and its two halves\<close>

text \<open>Run one after the other, the two halves change the pool as the whole call does.\<close>

lemma StartTapFeed_run:
  "run [OpTapAcquire tmo sch, OpTapDetach (length (detaching s)) fr args] s =
     (case StartTapFeed tmo sch fr args (Some (pool s)) of
        Returns (r, Some cp', ev) \<Rightarrow> Returns (s\<lparr>pool := cp'\<rparr>)
      | Returns (r, None, ev) \<Rightarrow> Panics
      | Blocks \<Rightarrow> Blocks
      | Panics \<Rightarrow> Panics)"
  by (auto simp: StartTapFeed_def detach_def dropAt_def
      split: outcome.splits prod.splits option.splits)

text \<open>In a state that keeps the accounting the whole call returns.\<close>

lemma StartTapFeed_accounted:
  assumes "accounted s"
  shows "\<exists>r cp' ev. StartTapFeed tmo sch fr (Some a) (Some (pool s)) = Returns (r, Some cp', ev)"
proof -
  from accounted_TapAcquire [OF assms, of tmo sch]
  obtain s1 where s1: "sys_step (OpTapAcquire tmo sch) s = Returns s1" and a1: "accounted s1"
    by blast
  let ?x = "OpTapDetach (length (detaching s)) fr (Some a)"
  from accounted_TapDetach [OF a1, of "length (detaching s)" fr "Some a"]
  obtain s2 where s2: "sys_step ?x s1 = Returns s2"
    by (cases "sys_step ?x s1") auto
  from s1 s2 have "run [OpTapAcquire tmo sch, ?x] s = Returns s2" by simp
  then show ?thesis
    unfolding StartTapFeed_run
    by (auto split: outcome.splits prod.splits option.splits)
qed

section \<open>The claims\<close>



text \<open>
  C2, as the claim states it, fails. A caller takes a connection from a pool of one
  place and one token slot, the pool is closed, and the caller returns the connection in
  good health: the connection is closed, yet the token taken when it was built stays in
  \<open>createsem\<close>. The send on the closed queue panics, and the deferred function only
  closes the connection.
\<close>

theorem closed_pool_return_keeps_token:
  "run [OpGet (10 * Millisecond) (prompt (Some (conn 1), None)), OpClose]
       (start (poolOf 1 1 [] 0 False))
     = Returns \<lparr>pool = poolOf 1 1 [] 1 True, out = [conn 1], detaching = []\<rparr>
   \<and> Return (Some (poolOf 1 1 [] 1 True)) (Some (conn 1))
     = Returns (Some (poolOf 1 1 [] 1 True), [EvIsHealthy (conn 1), EvClose (conn 1)])
   \<and> length (buf (createsem (poolOf 1 1 [] 1 True))) = 1"
  by (simp add: model_defs eval_nat_numeral)

text \<open>
  C2, amended. When the factory fails inside \<open>GetWithTimeout\<close> the token just taken is
  given back, so that the token count is what it was. When \<open>Return\<close> retires an unhealthy
  connection, or a healthy one that finds the open queue full, it takes exactly one
  token out and closes the connection. A healthy connection returned to a closed pool is
  closed and the pool is left as it was, tokens included; \<open>Close\<close> closes every queued
  connection and leaves \<open>createsem\<close> as it was.
\<close>

theorem token_release_paths:
  "(selectgo (fastReady sch cp) (fastOrder sch) \<noteq> RecvConn
      \<and> selectgo (slowReady d sch cp) (slowOrder sch) = SendSem
      \<and> closed (createsem cp) = False \<and> mkResult sch = (rv, Some e)
     \<longrightarrow> GetWithTimeout d sch (Some cp)
           = Returns ((rv, Some e),
               Some (cp\<lparr>createsem := (createsem cp)\<lparr>buf := tl (buf (createsem cp) @ [True])\<rparr>\<rparr>),
               [EvMkConn (host cp) (auth cp)])
         \<and> length (tl (buf (createsem cp) @ [True])) = length (buf (createsem cp)))
   \<and> ((healthy c = False
        \<or> (closed (connections cp) = False
            \<and> cap (connections cp) \<le> length (buf (connections cp))))
      \<and> buf (createsem cp) = t # ts
     \<longrightarrow> Return (Some cp) (Some c)
           = Returns (Some (cp\<lparr>createsem := (createsem cp)\<lparr>buf := ts\<rparr>\<rparr>),
                      [EvIsHealthy c, EvClose c]))
   \<and> (healthy c \<and> closed (connections cp)
     \<longrightarrow> Return (Some cp) (Some c) = Returns (Some cp, [EvIsHealthy c, EvClose c]))
   \<and> (closed (connections cp) = False
     \<longrightarrow> Close (Some cp)
           = (None, Some (cp\<lparr>connections := (connections cp)\<lparr>buf := [], closed := True\<rparr>\<rparr>),
              map EvClose (buf (connections cp))))"
  by (auto simp: GetWithTimeout_SendSem semCase_open length_tl_snoc Return_def retire_nonempty
      Close_def closeAll_map)

theorem token_release_paths_witness:
  "GetWithTimeout (10 * Millisecond) (prompt (None, Some (OtherError ''refused'')))
        (Some (poolOf 2 3 [] 1 False))
     = Returns ((None, Some (OtherError ''refused'')), Some (poolOf 2 3 [] 1 False),
                [EvMkConn ''h'' (''u'', ''p'')])
   \<and> Return (Some (poolOf 2 3 [] 1 False)) (Some (sick 7))
     = Returns (Some (poolOf 2 3 [] 0 False), [EvIsHealthy (sick 7), EvClose (sick 7)])
   \<and> Return (Some (poolOf 1 2 [conn 1] 2 False)) (Some (conn 2))
     = Returns (Some (poolOf 1 2 [conn 1] 1 False), [EvIsHealthy (conn 2), EvClose (conn 2)])
   \<and> Return (Some (poolOf 1 2 [] 1 True)) (Some (conn 2))
     = Returns (Some (poolOf 1 2 [] 1 True), [EvIsHealthy (conn 2), EvClose (conn 2)])
   \<and> Close (Some (poolOf 2 3 [conn 1, conn 2] 2 False))
     = (None, Some (poolOf 2 3 [] 2 True), [EvClose (conn 1), EvClose (conn 2)])"
proof -
  let ?sch = "prompt (None, Some (OtherError ''refused''))"
  from token_release_paths
    [where sch = ?sch and cp = "poolOf 2 3 [] 1 False" and d = "10 * Millisecond"
       and rv = None and e = "OtherError ''refused''" and c = "sick 7" and t = True
       and ts = "[]"]
    token_release_paths
    [where sch = ?sch and cp = "poolOf 1 2 [conn 1] 2 False" and c = "conn 2" and t = True
       and ts = "[True]"]
    token_release_paths
    [where sch = ?sch and cp = "poolOf 1 2 [] 1 True" and c = "conn 2"]
    token_release_paths
    [where sch = ?sch and cp = "poolOf 2 3 [conn 1, conn 2] 2 False"]
  show ?thesis by (simp add: model_defs eval_nat_numeral)
qed

text \<open>
  C3. In the second \<open>select\<close> of \<open>GetWithTimeout\<close>, when the send of a token is the case
  chosen, the factory is called once, with the pool's host and credentials, and
  what it returns is what the caller gets. If it returns an error, the token count is
  back to what it was before the call; if it does not, one more token is held.
\<close>

theorem factory_in_slow_path:
  assumes "selectgo (fastReady sch cp) (fastOrder sch) \<noteq> RecvConn"
    and "selectgo (slowReady d sch cp) (slowOrder sch) = SendSem"
    and "closed (createsem cp) = False"
    and "mkResult sch = (rv, e)"
  shows "GetWithTimeout d sch (Some cp)
           = Returns ((rv, e),
               Some (cp\<lparr>createsem := (createsem cp)\<lparr>buf :=
                   (if e = None then buf (createsem cp) @ [True]
                    else tl (buf (createsem cp) @ [True]))\<rparr>\<rparr>),
               [EvMkConn (host cp) (auth cp)])
         \<and> length (tl (buf (createsem cp) @ [True])) = length (buf (createsem cp))"
  using assms
  by (cases e) (simp_all add: GetWithTimeout_SendSem semCase_open chan_push_def length_tl_snoc)

theorem factory_in_slow_path_witness:
  "selectgo (fastReady (prompt (None, Some (OtherError ''refused''))) (poolOf 2 3 [] 1 False))
      (fastOrder (prompt (None, Some (OtherError ''refused'')))) \<noteq> RecvConn
   \<and> selectgo (slowReady (10 * Millisecond) (prompt (None, Some (OtherError ''refused'')))
        (poolOf 2 3 [] 1 False)) (slowOrder (prompt (None, Some (OtherError ''refused''))))
       = SendSem
   \<and> GetWithTimeout (10 * Millisecond) (prompt (None, Some (OtherError ''refused'')))
        (Some (poolOf 2 3 [] 1 False))
       = Returns ((None, Some (OtherError ''refused'')), Some (poolOf 2 3 [] 1 False),
                  [EvMkConn ''h'' (''u'', ''p'')])
   \<and> GetWithTimeout (10 * Millisecond) (prompt (Some (conn 1), None))
        (Some (poolOf 2 3 [] 1 False))
       = Returns ((Some (conn 1), None), Some (poolOf 2 3 [] 2 False),
                  [EvMkConn ''h'' (''u'', ''p'')])"
proof -
  let ?bad = "prompt (None, Some (OtherError ''refused''))"
  let ?good = "prompt (Some (conn 1), None)"
  let ?cp = "poolOf 2 3 [] 1 False"
  have f: "selectgo (fastReady ?bad ?cp) (fastOrder ?bad) \<noteq> RecvConn"
    by (simp add: model_defs)
  have s: "selectgo (slowReady (10 * Millisecond) ?bad ?cp) (slowOrder ?bad) = SendSem"
    by (simp add: model_defs)
  have f': "selectgo (fastReady ?good ?cp) (fastOrder ?good) \<noteq> RecvConn"
    by (simp add: model_defs)
  have s': "selectgo (slowReady (10 * Millisecond) ?good ?cp) (slowOrder ?good) = SendSem"
    by (simp add: model_defs)
  have c: "closed (createsem ?cp) = False" by (simp add: model_defs)
  have m: "mkResult ?bad = (None, Some (OtherError ''refused''))" by (simp add: model_defs)
  have m': "mkResult ?good = (Some (conn 1), None)" by (simp add: model_defs)
  from factory_in_slow_path [OF f s c m] factory_in_slow_path [OF f' s' c m'] f s
  show ?thesis by (simp add: poolOf_def eval_nat_numeral)
qed

text \<open>
  C4, as the claim states it, fails. On a closed pool a healthy connection is not queued
  although the queue has room: it is closed, and no token is released.
\<close>

theorem closed_pool_return_not_queued:
  "length (buf (connections (poolOf 2 3 [] 2 True))) < cap (connections (poolOf 2 3 [] 2 True))
   \<and> Return (Some (poolOf 2 3 [] 2 True)) (Some (conn 7))
     = Returns (Some (poolOf 2 3 [] 2 True), [EvIsHealthy (conn 7), EvClose (conn 7)])"
  by (simp add: model_defs eval_nat_numeral)

text \<open>
  C4, amended. An unhealthy connection is retired: with a token in \<open>createsem\<close> to take
  out, \<open>Return\<close> takes one out and closes the connection, and the queue is untouched.
  On an open pool a healthy connection that finds the queue full is retired in the same
  way, the queue staying as it was, and a healthy connection that finds room is put at
  the end of the queue, with \<open>createsem\<close> untouched and no \<open>Close\<close> called.
\<close>

theorem return_cases:
  "(healthy c = False \<and> buf (createsem cp) = t # ts
     \<longrightarrow> Return (Some cp) (Some c)
           = Returns (Some (cp\<lparr>createsem := (createsem cp)\<lparr>buf := ts\<rparr>\<rparr>),
                      [EvIsHealthy c, EvClose c]))
   \<and> (healthy c \<and> closed (connections cp) = False
        \<and> cap (connections cp) \<le> length (buf (connections cp))
        \<and> buf (createsem cp) = t # ts
     \<longrightarrow> Return (Some cp) (Some c)
           = Returns (Some (cp\<lparr>createsem := (createsem cp)\<lparr>buf := ts\<rparr>\<rparr>),
                      [EvIsHealthy c, EvClose c]))
   \<and> (healthy c \<and> closed (connections cp) = False
        \<and> length (buf (connections cp)) < cap (connections cp)
     \<longrightarrow> Return (Some cp) (Some c)
           = Returns (Some (cp\<lparr>connections :=
                                 (connections cp)\<lparr>buf := buf (connections cp) @ [c]\<rparr>\<rparr>),
                      [EvIsHealthy c]))"
  by (auto simp: Return_def retire_nonempty chan_push_def)

theorem return_cases_witness:
  "Return (Some (poolOf 2 3 [] 1 False)) (Some (sick 7))
     = Returns (Some (poolOf 2 3 [] 0 False), [EvIsHealthy (sick 7), EvClose (sick 7)])
   \<and> Return (Some (poolOf 1 2 [conn 1] 2 False)) (Some (conn 2))
     = Returns (Some (poolOf 1 2 [conn 1] 1 False), [EvIsHealthy (conn 2), EvClose (conn 2)])
   \<and> Return (Some (poolOf 2 3 [conn 1] 2 False)) (Some (conn 2))
     = Returns (Some (poolOf 2 3 [conn 1, conn 2] 2 False), [EvIsHealthy (conn 2)])"
  using
    return_cases [where cp = "poolOf 2 3 [] 1 False" and c = "sick 7" and t = True and ts = "[]"]
    return_cases [where cp = "poolOf 1 2 [conn 1] 2 False" and c = "conn 2" and t = True
      and ts = "[True]"]
    return_cases [where cp = "poolOf 2 3 [conn 1] 2 False" and c = "conn 2"]
  by (simp add: model_defs eval_nat_numeral)

text \<open>
  C5, as the claim states it, fails. On a closed and drained pool with a free token slot,
  a call whose grace timer has already fired when the first \<open>select\<close> polls, and is
  polled first, goes on to the second \<open>select\<close>; when that one polls the token channel
  first, the factory is called and the caller gets a new connection, not the
  closed-pool error.
\<close>

theorem closed_pool_get_builds:
  "newConnectionPool ''h'' (''u'', ''p'') 1 0 = Returns (poolOf 1 1 [] 0 False)
   \<and> Close (Some (poolOf 1 1 [] 0 False)) = (None, Some (poolOf 1 1 [] 0 True), [])
   \<and> GetWithTimeout (10 * Millisecond) (late (Some (conn 1), None))
        (Some (poolOf 1 1 [] 0 True))
     = Returns ((Some (conn 1), None), Some (poolOf 1 1 [] 1 True),
                [EvMkConn ''h'' (''u'', ''p'')])"
  by (simp add: model_defs eval_nat_numeral)

text \<open>
  C5, amended. \<open>Close\<close> on an open pool closes the queue, empties it and closes
  every connection that was in it, in order; on a pool already closed it returns the
  recovered run-time error and changes nothing. On a closed and drained pool
  \<open>GetWithTimeout\<close> returns the closed-pool error whenever a receive case is the one
  chosen. It is the one chosen by the first \<open>select\<close> when the grace timer has not
  fired yet, and by the second \<open>select\<close> when no token slot is free and the timeout has
  not run out, which is where a waiting call stands. With \<open>createsem\<close> open the call
  neither parks for ever nor panics.
\<close>

theorem closed_pool_behaviour:
  "(closed (connections cp) = False
     \<longrightarrow> Close (Some cp)
           = (None, Some (cp\<lparr>connections := (connections cp)\<lparr>buf := [], closed := True\<rparr>\<rparr>),
              map EvClose (buf (connections cp))))
   \<and> (closed (connections cp)
     \<longrightarrow> Close (Some cp) = (Some (RuntimeError ''close of closed channel''), Some cp, []))
   \<and> (closed (connections cp) \<and> buf (connections cp) = []
        \<and> (selectgo (fastReady sch cp) (fastOrder sch) = RecvConn
           \<or> selectgo (slowReady d sch cp) (slowOrder sch) = RecvConn)
     \<longrightarrow> GetWithTimeout d sch (Some cp) = Returns ((None, Some closedPool), Some cp, []))
   \<and> (closed (connections cp) \<and> fastElapsed sch < Millisecond \<and> RecvConn \<in> set (fastOrder sch)
     \<longrightarrow> selectgo (fastReady sch cp) (fastOrder sch) = RecvConn)
   \<and> (closed (connections cp) \<and> send_ready (createsem cp) = False \<and> slowElapsed sch < d
        \<and> RecvConn \<in> set (slowOrder sch)
     \<longrightarrow> selectgo (slowReady d sch cp) (slowOrder sch) = RecvConn)
   \<and> (closed (connections cp) \<and> closed (createsem cp) = False
     \<longrightarrow> GetWithTimeout d sch (Some cp) \<noteq> Blocks \<and> GetWithTimeout d sch (Some cp) \<noteq> Panics)"
proof (intro conjI impI)
  assume "closed (connections cp) = False"
  then show "Close (Some cp)
           = (None, Some (cp\<lparr>connections := (connections cp)\<lparr>buf := [], closed := True\<rparr>\<rparr>),
              map EvClose (buf (connections cp)))"
    by (simp add: Close_def closeAll_map)
next
  assume "closed (connections cp)"
  then show "Close (Some cp) = (Some (RuntimeError ''close of closed channel''), Some cp, [])"
    by (simp add: Close_def)
next
  assume a: "closed (connections cp) \<and> buf (connections cp) = []
        \<and> (selectgo (fastReady sch cp) (fastOrder sch) = RecvConn
           \<or> selectgo (slowReady d sch cp) (slowOrder sch) = RecvConn)"
  then have "recv_ready (connections cp) \<and> GetWithTimeout d sch (Some cp) = recvCase cp"
    using GetWithTimeout_RecvConn by blast
  with a show "GetWithTimeout d sch (Some cp) = Returns ((None, Some closedPool), Some cp, [])"
    by (simp add: recvCase_ready)
next
  assume a: "closed (connections cp) \<and> fastElapsed sch < Millisecond
             \<and> RecvConn \<in> set (fastOrder sch)"
  show "selectgo (fastReady sch cp) (fastOrder sch) = RecvConn"
  proof (rule selectgo_only_ready)
    show "\<And>x. fastReady sch cp x \<Longrightarrow> x = RecvConn"
      using a by (simp add: fastReady_def split: selCase.splits)
    show "fastReady sch cp RecvConn"
      using a by (simp add: fastReady_def recv_ready_def split: list.splits)
    show "RecvConn \<in> set (fastOrder sch)" using a by simp
  qed
next
  assume a: "closed (connections cp) \<and> send_ready (createsem cp) = False \<and> slowElapsed sch < d
        \<and> RecvConn \<in> set (slowOrder sch)"
  show "selectgo (slowReady d sch cp) (slowOrder sch) = RecvConn"
  proof (rule selectgo_only_ready)
    show "\<And>x. slowReady d sch cp x \<Longrightarrow> x = RecvConn"
      using a by (simp add: slowReady_def split: selCase.splits)
    show "slowReady d sch cp RecvConn"
      using a by (simp add: slowReady_def recv_ready_def split: list.splits)
    show "RecvConn \<in> set (slowOrder sch)" using a by simp
  qed
next
  assume a: "closed (connections cp) \<and> closed (createsem cp) = False"
  then have r: "recv_ready (connections cp)"
    by (simp add: recv_ready_def split: list.splits)
  from GetWithTimeout_branches [of cp d sch] a r
  show "GetWithTimeout d sch (Some cp) \<noteq> Blocks" and "GetWithTimeout d sch (Some cp) \<noteq> Panics"
    by (auto simp: recvCase_ready semCase_open split: list.splits prod.splits option.splits)
qed

theorem closed_pool_behaviour_witness:
  "Close (Some (poolOf 2 3 [conn 1, conn 2] 2 False))
     = (None, Some (poolOf 2 3 [] 2 True), [EvClose (conn 1), EvClose (conn 2)])
   \<and> Close (Some (poolOf 2 3 [] 2 True))
     = (Some (RuntimeError ''close of closed channel''), Some (poolOf 2 3 [] 2 True), [])
   \<and> GetWithTimeout (10 * Millisecond) (prompt (Some (conn 3), None)) (Some (poolOf 2 3 [] 2 True))
     = Returns ((None, Some closedPool), Some (poolOf 2 3 [] 2 True), [])
   \<and> send_ready (createsem (poolOf 1 1 [] 1 True)) = False
   \<and> GetWithTimeout (10 * Millisecond) (late (Some (conn 3), None)) (Some (poolOf 1 1 [] 1 True))
     = Returns ((None, Some closedPool), Some (poolOf 1 1 [] 1 True), [])"
proof -
  let ?p = "prompt (Some (conn 3), None)" and ?l = "late (Some (conn 3), None)"
  have f: "fastElapsed ?p < Millisecond \<and> RecvConn \<in> set (fastOrder ?p)"
    by (simp add: model_defs eval_nat_numeral)
  have w: "send_ready (createsem (poolOf 1 1 [] 1 True)) = False
           \<and> slowElapsed ?l < 10 * Millisecond \<and> RecvConn \<in> set (slowOrder ?l)"
    by (simp add: model_defs eval_nat_numeral)
  from closed_pool_behaviour
      [where cp = "poolOf 2 3 [conn 1, conn 2] 2 False" and sch = ?p and d = "10 * Millisecond"]
    closed_pool_behaviour
      [where cp = "poolOf 2 3 [] 2 True" and sch = ?p and d = "10 * Millisecond"]
    closed_pool_behaviour
      [where cp = "poolOf 1 1 [] 1 True" and sch = ?l and d = "10 * Millisecond"]
    f w
  show ?thesis by (simp add: model_defs eval_nat_numeral)
qed

text \<open>
  C6. \<open>StartTapFeed\<close> acquires with \<open>Get\<close>. When \<open>Get\<close> hands back a nil error and
  the token channel holds a token, \<open>StartTapFeed\<close> takes one token out, leaves the queue
  as \<open>Get\<close> left it, calls nothing but the connection's own feed start (no \<open>Close\<close>),
  and returns what the feed start answered. When \<open>Get\<close> fails, \<open>StartTapFeed\<close> returns
  that error, with the pool and the calls made exactly as \<open>Get\<close> left them. In a state
  that keeps the accounting the token is always there, and the whole call returns.
\<close>

theorem tap_feed_detaches:
  "(Get tmo sch (Some cp) = Returns ((mc, None), Some cp1, ev) \<and> buf (createsem cp1) = t # ts
      \<longrightarrow> StartTapFeed tmo sch fr (Some a) (Some cp)
            = Returns (fr, Some (cp1\<lparr>createsem := (createsem cp1)\<lparr>buf := ts\<rparr>\<rparr>),
                       ev @ [EvStartTapFeed mc a])
          \<and> (\<forall>x. EvClose x \<notin> set (ev @ [EvStartTapFeed mc a])))
   \<and> (Get tmo sch (Some cp) = Returns ((mc, Some e), cpo1, ev)
      \<longrightarrow> StartTapFeed tmo sch fr args (Some cp) = Returns ((None, Some e), cpo1, ev))
   \<and> (accounted s
      \<longrightarrow> (\<exists>r cp' ev'. StartTapFeed tmo sch fr (Some a) (Some (pool s))
                          = Returns (r, Some cp', ev')))"
proof (intro conjI impI allI)
  assume a: "Get tmo sch (Some cp) = Returns ((mc, None), Some cp1, ev) \<and> buf (createsem cp1) = t # ts"
  then show "StartTapFeed tmo sch fr (Some a) (Some cp)
            = Returns (fr, Some (cp1\<lparr>createsem := (createsem cp1)\<lparr>buf := ts\<rparr>\<rparr>),
                       ev @ [EvStartTapFeed mc a])"
    by (simp add: StartTapFeed_def detach_def chan_recv_def)
  fix x
  from a GetWithTimeout_events [of tmo sch "Some cp" "(mc, None)" "Some cp1" ev]
  show "EvClose x \<notin> set (ev @ [EvStartTapFeed mc a])"
    by (auto simp: Get_def)
next
  assume "Get tmo sch (Some cp) = Returns ((mc, Some e), cpo1, ev)"
  then show "StartTapFeed tmo sch fr args (Some cp) = Returns ((None, Some e), cpo1, ev)"
    by (simp add: StartTapFeed_def)
next
  assume "accounted s"
  then show "\<exists>r cp' ev'. StartTapFeed tmo sch fr (Some a) (Some (pool s))
                          = Returns (r, Some cp', ev')"
    by (rule StartTapFeed_accounted)
qed

theorem tap_feed_detaches_witness:
  "Get ConnPoolTimeout (prompt (None, None)) (Some (poolOf 2 3 [conn 1] 1 False))
     = Returns ((Some (conn 1), None), Some (poolOf 2 3 [] 1 False), [])
   \<and> buf (createsem (poolOf 2 3 [] 1 False)) = [True]
   \<and> StartTapFeed ConnPoolTimeout (prompt (None, None)) (Some (TapFeed 0), None)
        (Some (TapArguments ''feed'')) (Some (poolOf 2 3 [conn 1] 1 False))
     = Returns ((Some (TapFeed 0), None), Some (poolOf 2 3 [] 0 False),
                [EvStartTapFeed (Some (conn 1)) (TapArguments ''feed'')])
   \<and> Get ConnPoolTimeout (prompt (None, None)) (Some (poolOf 2 3 [] 3 False))
     = Returns ((None, Some TimeoutError), Some (poolOf 2 3 [] 3 False), [])
   \<and> StartTapFeed ConnPoolTimeout (prompt (None, None)) (Some (TapFeed 0), None)
        (Some (TapArguments ''feed'')) (Some (poolOf 2 3 [] 3 False))
     = Returns ((None, Some TimeoutError), Some (poolOf 2 3 [] 3 False), [])
   \<and> accounted \<lparr>pool = poolOf 2 3 [conn 1] 1 False, out = [], detaching = []\<rparr>"
proof -
  have g1: "Get ConnPoolTimeout (prompt (None, None)) (Some (poolOf 2 3 [conn 1] 1 False))
     = Returns ((Some (conn 1), None), Some (poolOf 2 3 [] 1 False), [])"
    by (simp add: model_defs eval_nat_numeral)
  have t1: "buf (createsem (poolOf 2 3 [] 1 False)) = [True]"
    by (simp add: model_defs eval_nat_numeral)
  have g2: "Get ConnPoolTimeout (prompt (None, None)) (Some (poolOf 2 3 [] 3 False))
     = Returns ((None, Some TimeoutError), Some (poolOf 2 3 [] 3 False), [])"
    by (simp add: model_defs eval_nat_numeral)
  have a: "accounted \<lparr>pool = poolOf 2 3 [conn 1] 1 False, out = [], detaching = []\<rparr>"
    by (simp add: model_defs eval_nat_numeral)
  from tap_feed_detaches
    [where tmo = ConnPoolTimeout and sch = "prompt (None, None)"
       and cp = "poolOf 2 3 [conn 1] 1 False"
       and mc = "Some (conn 1)" and ?cp1.0 = "poolOf 2 3 [] 1 False" and ev = "[]"
       and t = True and ts = "[]" and fr = "(Some (TapFeed 0), None)"
       and a = "TapArguments ''feed''"
       and s = "\<lparr>pool = poolOf 2 3 [conn 1] 1 False, out = [], detaching = []\<rparr>"]
    tap_feed_detaches
    [where tmo = ConnPoolTimeout and sch = "prompt (None, None)"
       and cp = "poolOf 2 3 [] 3 False"
       and mc = None and e = TimeoutError and ?cpo1.0 = "Some (poolOf 2 3 [] 3 False)"
       and ev = "[]" and fr = "(Some (TapFeed 0), None)"
       and args = "Some (TapArguments ''feed'')"]
    g1 t1 g2 a
  show ?thesis by (simp add: poolOf_def)
qed

text \<open>
  C7. On a nil pool \<open>GetWithTimeout\<close>, \<open>Get\<close> and \<open>StartTapFeed\<close> return at once the
  error \<open>NoPool\<close>, which is neither the timeout nor the closed-pool error, whatever
  the schedule and the arguments. \<open>Return\<close> with a nil pool or a nil connection returns
  with the pool unchanged and no call made.
\<close>

theorem nil_pool:
  "GetWithTimeout d sch None = Returns ((None, Some NoPool), None, [])
   \<and> Get tmo sch None = Returns ((None, Some NoPool), None, [])
   \<and> StartTapFeed tmo sch fr args None = Returns ((None, Some NoPool), None, [])
   \<and> NoPool \<noteq> TimeoutError \<and> NoPool \<noteq> closedPool
   \<and> Return None co = Returns (None, [])
   \<and> Return cpo None = Returns (cpo, [])"
  by (simp add: GetWithTimeout_def Get_def StartTapFeed_def Return_def split: option.splits)

theorem nil_pool_witness:
  "GetWithTimeout (10 * Millisecond) (prompt (Some (conn 1), None)) None
     = Returns ((None, Some NoPool), None, [])
   \<and> StartTapFeed ConnPoolTimeout (prompt (Some (conn 1), None)) (Some (TapFeed 0), None) None None
     = Returns ((None, Some NoPool), None, [])
   \<and> Return None (Some (conn 1)) = Returns (None, [])
   \<and> Return (Some (poolOf 2 3 [] 1 False)) None = Returns (Some (poolOf 2 3 [] 1 False), [])"
  using nil_pool [where d = "10 * Millisecond" and tmo = ConnPoolTimeout
      and sch = "prompt (Some (conn 1), None)" and fr = "(Some (TapFeed 0), None)"
      and args = None and co = "Some (conn 1)" and cpo = "Some (poolOf 2 3 [] 1 False)"]
  by simp

text \<open>
  C8, as the claim states it, fails. On a pool just built, whose token channel is empty,
  \<open>Return\<close> of an unhealthy connection parks on \<open><-cp.createsem\<close> with nothing to wake
  it.
\<close>

theorem return_parks_without_token:
  "newConnectionPool ''h'' (''u'', ''p'') 1 1 = Returns (poolOf 1 2 [] 0 False)
   \<and> Return (Some (poolOf 1 2 [] 0 False)) (Some (sick 7)) = Blocks"
  by (simp add: model_defs eval_nat_numeral)

text \<open>
  C8, amended. \<open>Return\<close> parks exactly when it has to retire the connection (it is
  unhealthy, or healthy with the open queue full) and the open token channel is empty.
  In every other case it returns, and it never panics. A caller that returns a
  connection it holds, in a state that keeps the accounting, is never parked.
\<close>

theorem return_blocks_iff:
  "(Return cpo co = Blocks \<longleftrightarrow>
      (\<exists>cp c. cpo = Some cp \<and> co = Some c
         \<and> buf (createsem cp) = [] \<and> closed (createsem cp) = False
         \<and> (healthy c \<longrightarrow> closed (connections cp) = False
                           \<and> cap (connections cp) \<le> length (buf (connections cp)))))
   \<and> Return cpo co \<noteq> Panics
   \<and> (accounted s \<longrightarrow> sys_step (OpReturn i h) s \<noteq> Blocks)"
proof (intro conjI impI)
  show "Return cpo co = Blocks \<longleftrightarrow>
      (\<exists>cp c. cpo = Some cp \<and> co = Some c
         \<and> buf (createsem cp) = [] \<and> closed (createsem cp) = False
         \<and> (healthy c \<longrightarrow> closed (connections cp) = False
                           \<and> cap (connections cp) \<le> length (buf (connections cp))))"
    by (cases cpo; cases co)
       (auto simp: Return_def retire_def chan_recv_def split: list.splits if_splits)
  show "Return cpo co \<noteq> Panics"
    by (cases cpo; cases co)
       (auto simp: Return_def retire_def chan_recv_def split: list.splits if_splits)
next
  assume "accounted s"
  then show "sys_step (OpReturn i h) s \<noteq> Blocks" by (rule accounted_never_Blocks)
qed

theorem return_blocks_iff_witness:
  "Return (Some (poolOf 1 2 [] 0 False)) (Some (sick 7)) = Blocks
   \<and> Return (Some (poolOf 1 2 [conn 1] 0 False)) (Some (conn 2)) = Blocks
   \<and> Return (Some (poolOf 1 2 [] 0 False)) (Some (conn 2)) \<noteq> Blocks
   \<and> Return (Some (poolOf 1 2 [] 1 False)) (Some (sick 7)) \<noteq> Blocks
   \<and> accounted \<lparr>pool = poolOf 1 2 [] 1 False, out = [conn 1], detaching = []\<rparr>
   \<and> sys_step (OpReturn 0 False) \<lparr>pool = poolOf 1 2 [] 1 False, out = [conn 1], detaching = []\<rparr>
       \<noteq> Blocks"
proof -
  have a: "accounted \<lparr>pool = poolOf 1 2 [] 1 False, out = [conn 1], detaching = []\<rparr>"
    by (simp add: model_defs eval_nat_numeral)
  from return_blocks_iff
      [where cpo = "Some (poolOf 1 2 [] 0 False)" and co = "Some (sick 7)"
         and s = "\<lparr>pool = poolOf 1 2 [] 1 False, out = [conn 1], detaching = []\<rparr>"
         and i = 0 and h = False]
    return_blocks_iff
      [where cpo = "Some (poolOf 1 2 [conn 1] 0 False)" and co = "Some (conn 2)"]
    return_blocks_iff
      [where cpo = "Some (poolOf 1 2 [] 0 False)" and co = "Some (conn 2)"]
    return_blocks_iff
      [where cpo = "Some (poolOf 1 2 [] 1 False)" and co = "Some (sick 7)"]
    a
  show ?thesis by (simp add: poolOf_def conn_def sick_def)
qed

text \<open>
  C9. \<open>GetWithTimeout\<close> never calls \<open>IsHealthy\<close>: the only call it may make is the
  factory's. A connection at the head of the queue is handed out by either receive
  case as it is, whatever its health. \<open>StartTapFeed\<close> and \<open>Close\<close> do not call
  \<open>IsHealthy\<close> either; \<open>Return\<close> of a connection to a pool always does.
\<close>

theorem liveness_checked_only_on_return:
  "(GetWithTimeout d sch cpo = Returns (r, cpo', ev) \<longrightarrow> EvIsHealthy x \<notin> set ev)
   \<and> (buf (connections cp) = c # rest
        \<and> (selectgo (fastReady sch cp) (fastOrder sch) = RecvConn
             \<or> selectgo (slowReady d sch cp) (slowOrder sch) = RecvConn)
       \<longrightarrow> GetWithTimeout d sch (Some cp)
             = Returns ((Some c, None),
                        Some (cp\<lparr>connections := (connections cp)\<lparr>buf := rest\<rparr>\<rparr>), []))
   \<and> (StartTapFeed tmo sch fr args cpo = Returns (r', cpo', ev) \<longrightarrow> EvIsHealthy x \<notin> set ev)
   \<and> EvIsHealthy x \<notin> set (snd (snd (Close cpo)))
   \<and> (Return (Some cp) (Some c) = Returns (cpo', ev) \<longrightarrow> EvIsHealthy c \<in> set ev)"
proof (intro conjI impI)
  assume "GetWithTimeout d sch cpo = Returns (r, cpo', ev)"
  from GetWithTimeout_events [OF this] show "EvIsHealthy x \<notin> set ev" by auto
next
  assume a: "buf (connections cp) = c # rest
        \<and> (selectgo (fastReady sch cp) (fastOrder sch) = RecvConn
             \<or> selectgo (slowReady d sch cp) (slowOrder sch) = RecvConn)"
  then have "recv_ready (connections cp) \<and> GetWithTimeout d sch (Some cp) = recvCase cp"
    using GetWithTimeout_RecvConn by blast
  with a show "GetWithTimeout d sch (Some cp)
             = Returns ((Some c, None),
                        Some (cp\<lparr>connections := (connections cp)\<lparr>buf := rest\<rparr>\<rparr>), [])"
    by (simp add: recvCase_ready)
next
  assume "StartTapFeed tmo sch fr args cpo = Returns (r', cpo', ev)"
  then show "EvIsHealthy x \<notin> set ev" by (rule StartTapFeed_events)
next
  show "EvIsHealthy x \<notin> set (snd (snd (Close cpo)))"
    using closeAll_events [of "EvIsHealthy x"]
    by (auto simp: Close_def split: option.splits)
next
  assume "Return (Some cp) (Some c) = Returns (cpo', ev)"
  then show "EvIsHealthy c \<in> set ev"
    by (auto simp: Return_def retire_def split: if_splits option.splits)
qed

theorem liveness_checked_only_on_return_witness:
  "buf (connections (poolOf 2 3 [sick 9] 1 False)) = [sick 9]
   \<and> selectgo (fastReady (prompt (None, None)) (poolOf 2 3 [sick 9] 1 False))
        (fastOrder (prompt (None, None))) = RecvConn
   \<and> GetWithTimeout (10 * Millisecond) (prompt (None, None)) (Some (poolOf 2 3 [sick 9] 1 False))
       = Returns ((Some (sick 9), None), Some (poolOf 2 3 [] 1 False), [])
   \<and> EvIsHealthy (sick 9) \<notin> set []
   \<and> Return (Some (poolOf 2 3 [] 1 False)) (Some (sick 9))
       = Returns (Some (poolOf 2 3 [] 0 False), [EvIsHealthy (sick 9), EvClose (sick 9)])
   \<and> EvIsHealthy (sick 9) \<in> set [EvIsHealthy (sick 9), EvClose (sick 9)]"
proof -
  have b: "buf (connections (poolOf 2 3 [sick 9] 1 False)) = [sick 9]"
    by (simp add: model_defs eval_nat_numeral)
  have f: "selectgo (fastReady (prompt (None, None)) (poolOf 2 3 [sick 9] 1 False))
        (fastOrder (prompt (None, None))) = RecvConn"
    by (simp add: model_defs eval_nat_numeral)
  have r: "Return (Some (poolOf 2 3 [] 1 False)) (Some (sick 9))
       = Returns (Some (poolOf 2 3 [] 0 False), [EvIsHealthy (sick 9), EvClose (sick 9)])"
    by (simp add: model_defs eval_nat_numeral)
  from liveness_checked_only_on_return
    [where cp = "poolOf 2 3 [sick 9] 1 False" and c = "sick 9" and rest = "[]"
       and sch = "prompt (None, None)" and d = "10 * Millisecond"]
    b f r
  show ?thesis by (simp add: model_defs eval_nat_numeral)
qed



end
